theory Spec2Isabelle
  imports
    Complex_Main
    "HOL-Library.Sublist"
    "HOL-Library.Char_ord"
    "HOL-Library.List_Lexorder"
begin

section \<open>Python primitives used by the backend\<close>

text \<open>
  Strings are \<open>char list\<close>. The only string tests the backend makes (\<open>in\<close>,
  \<open>startswith\<close>, \<open>endswith\<close>) are made with ASCII needles, for which
  the byte view and Python's code-point view agree.

  An exception is a value carrying its class name and \<open>str(e)\<close>. Every
  \<open>except\<close> clause of the backend that matters here is
  \<open>except Exception\<close>, so the class is never inspected.
\<close>

type_synonym path = string

datatype exn = Exn (exn_class: string) (exn_str: string)

text \<open>\<open>sub in s\<close> on Python strings.\<close>

fun str_in :: "string \<Rightarrow> string \<Rightarrow> bool" where
  "str_in sub [] = (sub = [])"
| "str_in sub (c # cs) = (prefix sub (c # cs) \<or> str_in sub cs)"

definition startswith :: "string \<Rightarrow> string \<Rightarrow> bool" where
  "startswith s pre = prefix pre s"

definition endswith :: "string \<Rightarrow> string \<Rightarrow> bool" where
  "endswith s suf = suffix suf s"

text \<open>
  \<open>posixpath.join(a, b)\<close>: an absolute \<open>b\<close> replaces \<open>a\<close>; otherwise
  \<open>b\<close> is appended, after a separator unless \<open>a\<close> is empty or already ends
  with one.
\<close>

definition path_join :: "path \<Rightarrow> path \<Rightarrow> path" where
  "path_join a b =
     (if startswith b ''/'' then b
      else if a = [] \<or> endswith a ''/'' then a @ b
      else a @ ''/'' @ b)"

text \<open>
  \<open>posixpath.splitext(p)[0]\<close>: the path without its extension. The extension
  starts at the last dot, provided that dot lies after the last separator and the
  file name has a character other than a dot before it.
\<close>

definition splitext_root :: "path \<Rightarrow> path" where
  "splitext_root p =
     (let r = rev p;
          ext_rev = takeWhile (\<lambda>c. c \<noteq> CHR ''.'') r;
          rest = dropWhile (\<lambda>c. c \<noteq> CHR ''.'') r
      in if rest \<noteq> [] \<and> CHR ''/'' \<notin> set ext_rev
            \<and> list_ex (\<lambda>c. c \<noteq> CHR ''.'') (takeWhile (\<lambda>c. c \<noteq> CHR ''/'') (tl rest))
         then rev (tl rest) else p)"

text \<open>
  \<open>int(x)\<close> on a float truncates toward zero. Python's true division \<open>/\<close> is
  modelled by exact division on the rationals; on doubles it is exact as long as the
  operands and the half-integer result stay below \<open>2 ^ 52\<close> in magnitude.
\<close>

definition py_int :: "rat \<Rightarrow> int" where
  "py_int q = (if 0 \<le> q then \<lfloor>q\<rfloor> else \<lceil>q\<rceil>)"

text \<open>The format specification \<open>03d\<close> on a non-negative integer.\<close>

definition digit :: "nat \<Rightarrow> char" where
  "digit d = ''0123456789'' ! d"

fun decimal :: "nat \<Rightarrow> string" where
  "decimal n = (if n < 10 then [digit n] else decimal (n div 10) @ [digit (n mod 10)])"

declare decimal.simps [simp del]

definition fmt_03d :: "nat \<Rightarrow> string" where
  "fmt_03d n = replicate (3 - length (decimal n)) CHR ''0'' @ decimal n"

definition nl :: string where
  "nl = [CHR 0x0A]"


section \<open>Effects: a trace of what a run does to the outside world\<close>

text \<open>
  A run of the pipeline is modelled as the chronological list of its effects
  together with its outcome (\<open>Inl\<close> an exception that escapes, \<open>Inr\<close> a
  returned value). \<open>print\<close> calls are left out. Writes and directory
  operations inside the job directory are taken to succeed: the job directory is
  created at ingress, before the pipeline is scheduled.
\<close>

type_synonym image = string

text \<open>
  What \<open>video.read()\<close> hands back to the selector: \<open>None\<close>,
  \<open>False\<close> (the stream's answer when no frame can be read), or a decoded frame.
  The selector passes it on to \<open>cv2.imwrite\<close> unless it is \<open>None\<close>.
\<close>

datatype py_frame = PyNone | PyFalse | Ndarray image

datatype event =
    WriteFile path string
  | MakeDirs path
  | RemoveFile path
  | YtDlpDownload string path
  | FfmpegRun path path
  | WhisperTranscribe path
  | DetectScenes path
  | Seek path int
  | ImWrite path py_frame
  | GenerateContent string "path list"
  | QueuePut string string

type_synonym 'a io = "event list \<times> (exn + 'a)"

definition io_return :: "'a \<Rightarrow> 'a io" where
  "io_return x = ([], Inr x)"

definition io_raise :: "exn \<Rightarrow> 'a io" where
  "io_raise e = ([], Inl e)"

definition io_bind :: "'a io \<Rightarrow> ('a \<Rightarrow> 'b io) \<Rightarrow> 'b io" where
  "io_bind m f =
     (case snd m of
        Inl e \<Rightarrow> (fst m, Inl e)
      | Inr x \<Rightarrow> (fst m @ fst (f x), snd (f x)))"

definition io_then :: "'a io \<Rightarrow> 'b io \<Rightarrow> 'b io" where
  "io_then m k = io_bind m (\<lambda>_. k)"

text \<open>\<open>try: m except Exception as e: h e\<close>.\<close>

definition io_try :: "'a io \<Rightarrow> (exn \<Rightarrow> 'a io) \<Rightarrow> 'a io" where
  "io_try m h =
     (case snd m of
        Inl e \<Rightarrow> (fst m @ fst (h e), snd (h e))
      | Inr x \<Rightarrow> (fst m, Inr x))"

text \<open>\<open>try: m finally: c\<close>, for a cleanup \<open>c\<close> that does not raise.\<close>

definition io_finally :: "'a io \<Rightarrow> event list \<Rightarrow> 'a io" where
  "io_finally m c = (fst m @ c, snd m)"

definition write_file :: "path \<Rightarrow> string \<Rightarrow> unit io" where
  "write_file p text = ([WriteFile p text], Inr ())"

definition makedirs :: "path \<Rightarrow> unit io" where
  "makedirs p = ([MakeDirs p], Inr ())"

definition remove_file :: "path \<Rightarrow> unit io" where
  "remove_file p = ([RemoveFile p], Inr ())"


section \<open>The outside world\<close>

text \<open>
  What the operating system and the external collaborators (yt-dlp, ffmpeg, Whisper,
  PySceneDetect, OpenCV, PIL, the generative model) answer during one run. Each
  collaborator either raises or returns. A scene is the pair of the frame numbers of
  its two timecodes (\<open>get_frames()\<close>, never negative). \<open>seek_read\<close> is
  \<open>video.seek(n)\<close> followed by \<open>video.read()\<close>: it raises, or hands
  back a value.
\<close>

record world =
  listdir :: "path \<Rightarrow> string list"
  path_exists :: "path \<Rightarrow> bool"
  ydl_extract_info :: "string \<Rightarrow> path \<Rightarrow> exn + path"
  ffmpeg_run :: "path \<Rightarrow> path \<Rightarrow> exn + unit"
  whisper_transcribe :: "path \<Rightarrow> exn + string"
  detect_scenes :: "path \<Rightarrow> exn + (nat \<times> nat) list"
  seek_read :: "path \<Rightarrow> int \<Rightarrow> exn + py_frame"
  image_open :: "path \<Rightarrow> bool"
  generate_content :: "string \<Rightarrow> path list \<Rightarrow> exn + string"


section \<open>analyzer.py\<close>

definition TEMP_STORAGE_PATH :: path where
  "TEMP_STORAGE_PATH = ''temp_storage''"

definition download_video :: "world \<Rightarrow> string \<Rightarrow> path \<Rightarrow> path io" where
  "download_video w url download_path =
     (let stale = filter (\<lambda>f. startswith f ''video.'') (listdir w download_path);
          outtmpl = path_join download_path ''video.%(ext)s''
      in (map (\<lambda>f. RemoveFile (path_join download_path f)) stale @ [YtDlpDownload url outtmpl],
          ydl_extract_info w url outtmpl))"

definition extract_audio :: "world \<Rightarrow> path \<Rightarrow> path \<Rightarrow> path io" where
  "extract_audio w video_path job_dir =
     (let audio_path = path_join job_dir ''audio.mp3''
      in io_bind ([FfmpegRun video_path audio_path], ffmpeg_run w video_path audio_path)
           (\<lambda>_. io_return audio_path))"

definition transcribe_audio :: "world \<Rightarrow> path \<Rightarrow> string io" where
  "transcribe_audio w audio_path =
     io_finally
       (io_bind ([WhisperTranscribe audio_path], whisper_transcribe w audio_path)
          (\<lambda>transcript.
             let transcript_path = splitext_root audio_path @ ''.txt''
             in io_then (write_file transcript_path transcript) (io_return transcript)))
       (if path_exists w audio_path then [RemoveFile audio_path] else [])"

definition middle_frame_num :: "nat \<Rightarrow> nat \<Rightarrow> int" where
  "middle_frame_num start_frame end_frame =
     py_int (of_nat start_frame + (of_nat end_frame - of_nat start_frame) / 2)"

definition keyframe_name :: "nat \<Rightarrow> string" where
  "keyframe_name i = ''keyframe_'' @ fmt_03d (i + 1) @ ''.jpg''"

text \<open>
  The body of \<open>for i, scene in enumerate(scene_list)\<close>, over the enumerated
  list, with \<open>saved_keyframes\<close> as accumulator.
\<close>

fun keyframes_loop ::
  "world \<Rightarrow> path \<Rightarrow> path \<Rightarrow> (nat \<times> nat \<times> nat) list \<Rightarrow> path list \<Rightarrow> (path list) io"
where
  "keyframes_loop w video keyframes_dir [] saved_keyframes = io_return saved_keyframes"
| "keyframes_loop w video keyframes_dir ((i, start_frame, end_frame) # rest) saved_keyframes =
     (let middle = middle_frame_num start_frame end_frame
      in case seek_read w video middle of
           Inl e \<Rightarrow> ([Seek video middle], Inl e)
         | Inr frame_image \<Rightarrow>
             if frame_image \<noteq> PyNone
             then (let keyframe_path = path_join keyframes_dir (keyframe_name i)
                   in io_then ([Seek video middle, ImWrite keyframe_path frame_image], Inr ())
                        (keyframes_loop w video keyframes_dir rest
                           (saved_keyframes @ [keyframe_path])))
             else io_then ([Seek video middle], Inr ())
                    (keyframes_loop w video keyframes_dir rest saved_keyframes))"

definition extract_keyframes :: "world \<Rightarrow> path \<Rightarrow> path \<Rightarrow> (path list) io" where
  "extract_keyframes w video_path job_dir =
     (let keyframes_dir = path_join job_dir ''keyframes''
      in io_then (makedirs keyframes_dir)
           (io_bind ([DetectScenes video_path], detect_scenes w video_path)
              (\<lambda>scene_list.
                 keyframes_loop w video_path keyframes_dir (enumerate 0 scene_list) [])))"

definition fallback_report :: "exn \<Rightarrow> string \<Rightarrow> string" where
  "fallback_report e transcript =
     ''# LLM Analysis Failed'' @ nl @ nl @ ''Error: '' @ exn_str e @ nl @ nl
       @ ''## Transcript'' @ nl @ transcript"

definition generate_report :: "world \<Rightarrow> string \<Rightarrow> path \<Rightarrow> string io" where
  "generate_report w transcript keyframes_dir =
     (let keyframe_files =
            sort (map (path_join keyframes_dir)
                    (filter (\<lambda>f. endswith f ''.jpg'') (listdir w keyframes_dir)));
          image_parts = filter (image_open w) keyframe_files
      in io_try
           ([GenerateContent transcript image_parts], generate_content w transcript image_parts)
           (\<lambda>e. io_return (fallback_report e transcript)))"

definition run_analysis_on_local_file :: "world \<Rightarrow> string \<Rightarrow> path \<Rightarrow> unit io" where
  "run_analysis_on_local_file w job_id video_path =
     (let job_dir = path_join TEMP_STORAGE_PATH job_id;
          status_file = path_join job_dir ''status.txt'';
          keyframes_dir = path_join job_dir ''keyframes'';
          report_path = path_join job_dir ''report.md''
      in io_try
           (io_then (write_file status_file ''extracting_audio'')
           (io_bind (extract_audio w video_path job_dir) (\<lambda>audio_path.
            io_then (write_file status_file ''transcribing'')
           (io_bind (transcribe_audio w audio_path) (\<lambda>transcript.
            io_then (write_file status_file ''extracting_frames'')
           (io_then (makedirs keyframes_dir)
           (io_then (extract_keyframes w video_path job_dir)
           (io_then (write_file status_file ''generating_report'')
           (io_bind (generate_report w transcript keyframes_dir) (\<lambda>report.
            io_then (write_file report_path report)
           (write_file status_file ''complete'')))))))))))
           (\<lambda>e. io_then
                  (write_file status_file (''error: '' @ ''Error during analysis: '' @ exn_str e))
                  (io_raise e)))"

definition unsupported_url_message :: string where
  "unsupported_url_message =
     ''Unsupported URL. Please provide a direct link to a TikTok or Douyin video, not a user profile or search page.''"

definition run_analysis_pipeline :: "world \<Rightarrow> string \<Rightarrow> string \<Rightarrow> unit io" where
  "run_analysis_pipeline w job_id video_url =
     (let job_dir = path_join TEMP_STORAGE_PATH job_id;
          status_file = path_join job_dir ''status.txt''
      in if \<not> (str_in ''/video/'' video_url \<or> str_in ''/note/'' video_url)
         then write_file status_file (''Error: '' @ unsupported_url_message)
         else io_try
                (io_then (write_file status_file ''downloading'')
                (io_bind (download_video w video_url job_dir) (\<lambda>video_path.
                 if video_path = [] then io_raise (Exn ''ValueError'' ''Failed to download video.'')
                 else run_analysis_on_local_file w job_id video_path)))
                (\<lambda>e. write_file status_file (''error: '' @ ''An error occurred: '' @ exn_str e)))"


section \<open>main.py\<close>

text \<open>
  \<open>SSEManager.connections\<close>: job id to the contents of its queue, oldest
  message first. \<open>asyncio.Queue()\<close> is unbounded, so \<open>put\<close> never blocks
  and never raises.
\<close>

type_synonym connections = "string \<rightharpoonup> string list"

definition add_connection :: "connections \<Rightarrow> string \<Rightarrow> connections" where
  "add_connection conns job_id = conns(job_id \<mapsto> [])"

definition send_event :: "connections \<Rightarrow> string \<Rightarrow> string \<Rightarrow> event list \<times> connections" where
  "send_event conns job_id message =
     (case conns job_id of
        None \<Rightarrow> ([], conns)
      | Some queue \<Rightarrow> ([QueuePut job_id message], conns(job_id \<mapsto> queue @ [message])))"

definition remove_connection :: "connections \<Rightarrow> string \<Rightarrow> connections" where
  "remove_connection conns job_id = conns(job_id := None)"

text \<open>
  The two wrappers scheduled as background tasks. The connections are those registered
  when the pipeline has finished, which is the only moment a wrapper looks at them.
\<close>

definition run_analysis_and_notify ::
  "world \<Rightarrow> connections \<Rightarrow> string \<Rightarrow> string \<Rightarrow> event list \<times> connections"
where
  "run_analysis_and_notify w conns job_id url =
     (let r = run_analysis_pipeline w job_id url;
          n = (case snd r of
                 Inr _ \<Rightarrow> send_event conns job_id ''complete''
               | Inl e \<Rightarrow> send_event conns job_id ''error'')
      in (fst r @ fst n, snd n))"

definition run_local_file_analysis_and_notify ::
  "world \<Rightarrow> connections \<Rightarrow> string \<Rightarrow> path \<Rightarrow> event list \<times> connections"
where
  "run_local_file_analysis_and_notify w conns job_id video_path =
     (let r = run_analysis_on_local_file w job_id video_path;
          n = (case snd r of
                 Inr _ \<Rightarrow> send_event conns job_id ''complete''
               | Inl e \<Rightarrow> send_event conns job_id ''error'')
      in (fst r @ fst n, snd n))"

text \<open>
  What \<open>event_generator\<close> yields to a client that stays connected, from the
  messages that reach its queue: each in turn, up to and including the first
  terminal one.
\<close>

fun event_generator :: "string list \<Rightarrow> string list" where
  "event_generator [] = []"
| "event_generator (message # queue) =
     message # (if message \<in> set [''complete'', ''error''] then [] else event_generator queue)"

text \<open>
  The two ingress endpoints, on a file system of directories and regular files.
  Permissions and free space are not part of the state. The job id is the fresh
  \<open>uuid4\<close> the endpoint draws; the endpoint returns it together with the
  background task it schedules.
\<close>

record filesystem =
  dirs :: "path set"
  files :: "path \<rightharpoonup> string"

text \<open>
  The directories above a path: its non-empty proper prefixes that end just before a
  separator, shortest first.
\<close>

fun dir_prefixes :: "path \<Rightarrow> path \<Rightarrow> path list" where
  "dir_prefixes seen [] = []"
| "dir_prefixes seen (c # cs) =
     (if c = CHR ''/'' \<and> seen \<noteq> [] then [seen] else []) @ dir_prefixes (seen @ [c]) cs"

definition parents :: "path \<Rightarrow> path list" where
  "parents p = dir_prefixes [] p"

text \<open>
  \<open>os.makedirs(p, exist_ok=True)\<close> creates \<open>p\<close> and the missing
  directories above it, and leaves existing directories alone. It raises when a
  component above \<open>p\<close> is a regular file, or when \<open>p\<close> itself is one.
\<close>

definition os_makedirs_exist_ok :: "filesystem \<Rightarrow> path \<Rightarrow> exn + filesystem" where
  "os_makedirs_exist_ok s p =
     (if list_ex (\<lambda>q. q \<in> dom (files s)) (parents p) then Inl (Exn ''NotADirectoryError'' p)
      else if p \<in> dom (files s) then Inl (Exn ''FileExistsError'' p)
      else Inr (s\<lparr>dirs := dirs s \<union> set (parents p) \<union> {p}\<rparr>))"

text \<open>
  \<open>open(p, "wb")\<close> followed by writing the content, in a directory that exists:
  it raises when \<open>p\<close> is a directory.
\<close>

definition open_wb_write :: "filesystem \<Rightarrow> path \<Rightarrow> string \<Rightarrow> exn + filesystem" where
  "open_wb_write s p content =
     (if p \<in> dirs s then Inl (Exn ''IsADirectoryError'' p)
      else Inr (s\<lparr>files := (files s)(p \<mapsto> content)\<rparr>))"

datatype task =
    Run_analysis_and_notify string string
  | Run_local_file_analysis_and_notify string path

definition analyze_video_url ::
  "filesystem \<Rightarrow> string \<Rightarrow> string \<Rightarrow> exn + (filesystem \<times> task \<times> string)"
where
  "analyze_video_url s job_id url =
     (case os_makedirs_exist_ok s (path_join TEMP_STORAGE_PATH job_id) of
        Inl e \<Rightarrow> Inl e
      | Inr s' \<Rightarrow> Inr (s', Run_analysis_and_notify job_id url, job_id))"

definition analyze_video_upload ::
  "filesystem \<Rightarrow> string \<Rightarrow> string \<Rightarrow> exn + (filesystem \<times> task \<times> string)"
where
  "analyze_video_upload s job_id video =
     (let job_dir = path_join TEMP_STORAGE_PATH job_id
      in case os_makedirs_exist_ok s job_dir of
           Inl e \<Rightarrow> Inl e
         | Inr s' \<Rightarrow>
             (let video_path = path_join job_dir ''video.mp4''
              in case open_wb_write s' video_path video of
                   Inl e \<Rightarrow> Inl e
                 | Inr s'' \<Rightarrow>
                     Inr (s'', Run_local_file_analysis_and_notify job_id video_path, job_id)))"


section \<open>Observations on a trace\<close>

text \<open>The texts written to one file, in order; the last one is the file's content.\<close>

fun written_to :: "path \<Rightarrow> event list \<Rightarrow> string list" where
  "written_to p [] = []"
| "written_to p (WriteFile q text # es) = (if q = p then text # written_to p es else written_to p es)"
| "written_to p (_ # es) = written_to p es"

definition status_file_of :: "string \<Rightarrow> path" where
  "status_file_of job_id = path_join (path_join TEMP_STORAGE_PATH job_id) ''status.txt''"

definition report_path_of :: "string \<Rightarrow> path" where
  "report_path_of job_id = path_join (path_join TEMP_STORAGE_PATH job_id) ''report.md''"

definition status_writes :: "string \<Rightarrow> event list \<Rightarrow> string list" where
  "status_writes job_id tr = written_to (status_file_of job_id) tr"

text \<open>The messages put on any subscriber queue, in order.\<close>

fun published :: "event list \<Rightarrow> (string \<times> string) list" where
  "published [] = []"
| "published (QueuePut job_id message # es) = (job_id, message) # published es"
| "published (_ # es) = published es"

text \<open>The frame numbers sought, and the paths of the images written, in order.\<close>

fun seeks :: "event list \<Rightarrow> int list" where
  "seeks [] = []"
| "seeks (Seek p n # es) = n # seeks es"
| "seeks (_ # es) = seeks es"

fun image_paths :: "event list \<Rightarrow> path list" where
  "image_paths [] = []"
| "image_paths (ImWrite p frame_image # es) = p # image_paths es"
| "image_paths (_ # es) = image_paths es"

fun is_download :: "event \<Rightarrow> bool" where
  "is_download (YtDlpDownload url outtmpl) = True"
| "is_download _ = False"

text \<open>Effects that only the stages after transcription have.\<close>

fun after_transcription :: "event \<Rightarrow> bool" where
  "after_transcription (MakeDirs p) = True"
| "after_transcription (DetectScenes p) = True"
| "after_transcription (Seek p n) = True"
| "after_transcription (ImWrite p img) = True"
| "after_transcription (GenerateContent t imgs) = True"
| "after_transcription _ = False"

text \<open>
  The status values: the six stage names in pipeline order, and the failure texts,
  which start with \<open>error: \<close> (a stage failed) or \<open>Error: \<close> (the URL was
  rejected).
\<close>

definition stage_rank :: "string \<Rightarrow> nat option" where
  "stage_rank s =
     (if s = ''downloading'' then Some 0
      else if s = ''extracting_audio'' then Some 1
      else if s = ''transcribing'' then Some 2
      else if s = ''extracting_frames'' then Some 3
      else if s = ''generating_report'' then Some 4
      else if s = ''complete'' then Some 5
      else None)"

definition is_error_status :: "string \<Rightarrow> bool" where
  "is_error_status s = (startswith s ''error: '' \<or> startswith s ''Error: '')"

text \<open>
  A sequence of status writes is monotone when each write is a stage or a failure, a
  stage is followed by the same or a later stage or by a failure, and a failure is
  followed by failures only.
\<close>

fun monotone_status :: "string list \<Rightarrow> bool" where
  "monotone_status [] = True"
| "monotone_status [s] = (case stage_rank s of Some i \<Rightarrow> True | None \<Rightarrow> is_error_status s)"
| "monotone_status (a # b # rest) =
     ((case stage_rank a of
         Some i \<Rightarrow> (case stage_rank b of Some j \<Rightarrow> i \<le> j | None \<Rightarrow> is_error_status b)
       | None \<Rightarrow> is_error_status a \<and> is_error_status b)
      \<and> monotone_status (b # rest))"

text \<open>A world in which every collaborator succeeds, for concrete runs.\<close>

definition calm_world :: world where
  "calm_world =
     \<lparr> listdir = (\<lambda>p. []),
       path_exists = (\<lambda>p. True),
       ydl_extract_info = (\<lambda>url outtmpl. Inr ''temp_storage/job1/video.mp4''),
       ffmpeg_run = (\<lambda>v a. Inr ()),
       whisper_transcribe = (\<lambda>a. Inr ''hello world''),
       detect_scenes = (\<lambda>v. Inr [(0, 10), (10, 20)]),
       seek_read = (\<lambda>v n. Inr (Ndarray ''frame'')),
       image_open = (\<lambda>p. True),
       generate_content = (\<lambda>t imgs. Inr ''# Report'') \<rparr>"


section \<open>Names for the paths and event runs of one job\<close>

definition join_base :: "path \<Rightarrow> path" where
  "join_base a = (if a = [] \<or> endswith a ''/'' then a else a @ ''/'')"

fun keyframe_event :: "event \<Rightarrow> bool" where
  "keyframe_event (Seek p n) = True"
| "keyframe_event (ImWrite p i) = True"
| "keyframe_event (DetectScenes p) = True"
| "keyframe_event (MakeDirs p) = True"
| "keyframe_event _ = False"

definition io_prefix :: "event list \<Rightarrow> 'a io \<Rightarrow> 'a io" where
  "io_prefix t m = (t @ fst m, snd m)"

definition local_error_status :: "exn \<Rightarrow> string" where
  "local_error_status e = ''error: '' @ ''Error during analysis: '' @ exn_str e"

definition job_dir_of :: "string \<Rightarrow> path" where
  "job_dir_of j = path_join TEMP_STORAGE_PATH j"

definition audio_path_of :: "string \<Rightarrow> path" where
  "audio_path_of j = path_join (job_dir_of j) ''audio.mp3''"

definition cleanup_audio :: "world \<Rightarrow> path \<Rightarrow> event list" where
  "cleanup_audio w ap = (if path_exists w ap then [RemoveFile ap] else [])"

definition transcript_path_of :: "string \<Rightarrow> path" where
  "transcript_path_of j = splitext_root (audio_path_of j) @ ''.txt''"

definition keyframes_dir_of :: "string \<Rightarrow> path" where
  "keyframes_dir_of j = path_join (job_dir_of j) ''keyframes''"

text \<open>The events of the run up to the start of keyframe extraction.\<close>

definition local_prefix :: "world \<Rightarrow> string \<Rightarrow> path \<Rightarrow> string \<Rightarrow> event list" where
  "local_prefix w j v t =
     [WriteFile (status_file_of j) ''extracting_audio'',
      FfmpegRun v (audio_path_of j),
      WriteFile (status_file_of j) ''transcribing'',
      WhisperTranscribe (audio_path_of j),
      WriteFile (transcript_path_of j) t]
     @ cleanup_audio w (audio_path_of j)
     @ [WriteFile (status_file_of j) ''extracting_frames'',
        MakeDirs (keyframes_dir_of j)]"

definition image_parts_of :: "world \<Rightarrow> string \<Rightarrow> path list" where
  "image_parts_of w j =
     filter (image_open w)
       (sort (map (path_join (keyframes_dir_of j))
          (filter (\<lambda>f. endswith f ''.jpg'') (listdir w (keyframes_dir_of j)))))"

definition report_of :: "world \<Rightarrow> string \<Rightarrow> string \<Rightarrow> string" where
  "report_of w j t =
     (case generate_content w t (image_parts_of w j) of
        Inl e \<Rightarrow> fallback_report e t
      | Inr text \<Rightarrow> text)"

definition outtmpl_of :: "string \<Rightarrow> path" where
  "outtmpl_of j = path_join (job_dir_of j) ''video.%(ext)s''"

definition download_events :: "world \<Rightarrow> string \<Rightarrow> string \<Rightarrow> event list" where
  "download_events w j url =
     map (\<lambda>f. RemoveFile (path_join (job_dir_of j) f))
       (filter (\<lambda>f. startswith f ''video.'') (listdir w (job_dir_of j)))
     @ [YtDlpDownload url (outtmpl_of j)]"

definition url_error_status :: "exn \<Rightarrow> string" where
  "url_error_status e = ''error: '' @ ''An error occurred: '' @ exn_str e"

definition url_accepted :: "string \<Rightarrow> bool" where
  "url_accepted url = (str_in ''/video/'' url \<or> str_in ''/note/'' url)"

definition read_at :: "world \<Rightarrow> path \<Rightarrow> nat \<times> nat \<Rightarrow> exn + py_frame" where
  "read_at w v scene = seek_read w v (middle_frame_num (fst scene) (snd scene))"

definition numbered_path :: "path \<Rightarrow> nat \<times> nat \<times> nat \<Rightarrow> path" where
  "numbered_path kd sc = path_join kd (''keyframe_'' @ fmt_03d (fst sc + 1) @ ''.jpg'')"

definition path_blocked :: "filesystem \<Rightarrow> path \<Rightarrow> bool" where
  "path_blocked s p = (list_ex (\<lambda>q. q \<in> dom (files s)) (parents p) \<or> p \<in> dom (files s))"


section \<open>Path and string facts\<close>

lemma str_in_iff: "str_in sub s \<longleftrightarrow> (\<exists>p q. s = p @ sub @ q)"
proof (induction s)
  case Nil
  then show ?case by auto
next
  case (Cons c cs)
  show ?case
  proof
    assume "str_in sub (c # cs)"
    then consider "prefix sub (c # cs)" | "str_in sub cs" by auto
    then show "\<exists>p q. c # cs = p @ sub @ q"
    proof cases
      case 1
      then obtain q where "c # cs = sub @ q" by (auto simp: prefix_def)
      then have "c # cs = [] @ sub @ q" by simp
      then show ?thesis by blast
    next
      case 2
      with Cons.IH obtain p q where "cs = p @ sub @ q" by blast
      then have "c # cs = (c # p) @ sub @ q" by simp
      then show ?thesis by blast
    qed
  next
    assume "\<exists>p q. c # cs = p @ sub @ q"
    then obtain p q where pq: "c # cs = p @ sub @ q" by blast
    show "str_in sub (c # cs)"
    proof (cases p)
      case Nil
      with pq have "prefix sub (c # cs)" by (simp add: prefix_def)
      then show ?thesis by simp
    next
      case (Cons a p')
      with pq have "cs = p' @ sub @ q" by simp
      with Cons.IH have "str_in sub cs" by blast
      then show ?thesis by simp
    qed
  qed
qed

lemma py_int_half: "py_int (of_int n / 2) = n div 2" if "0 \<le> n"
proof -
  have "(0::rat) \<le> of_int n / 2" using that by simp
  moreover have "\<lfloor>(of_int n :: rat) / 2\<rfloor> = n div 2"
    using floor_divide_of_int_eq[of n 2, where ?'a = rat] by simp
  ultimately show ?thesis by (simp add: py_int_def)
qed

lemma middle_frame_num_eq: "middle_frame_num s e = (int s + int e) div 2"
proof -
  have "(of_nat s :: rat) + (of_nat e - of_nat s) / 2 = of_int (int s + int e) / 2"
    by (simp add: field_simps)
  then show ?thesis
    unfolding middle_frame_num_def by (simp only: py_int_half)
qed

lemma path_join_rel: "\<not> startswith b ''/'' \<Longrightarrow> path_join a b = join_base a @ b"
  by (simp add: path_join_def join_base_def)

lemma status_file_of_eq:
  "status_file_of j = join_base (path_join TEMP_STORAGE_PATH j) @ ''status.txt''"
  by (simp add: status_file_of_def path_join_rel startswith_def)

lemma report_path_of_eq:
  "report_path_of j = join_base (path_join TEMP_STORAGE_PATH j) @ ''report.md''"
  by (simp add: report_path_of_def path_join_rel startswith_def)

lemma splitext_root_audio: "splitext_root (d @ ''audio.mp3'') = d @ ''audio''"
  by (simp add: splitext_root_def)

lemma written_to_append [simp]: "written_to p (a @ b) = written_to p a @ written_to p b"
  by (induction p a rule: written_to.induct) auto

lemma published_append [simp]: "published (a @ b) = published a @ published b"
  by (induction a rule: published.induct) auto

lemma fst_io_bind: "fst (io_bind m f) = (case snd m of Inl e \<Rightarrow> fst m | Inr x \<Rightarrow> fst m @ fst (f x))"
  by (simp add: io_bind_def split: sum.splits)

lemma snd_io_bind: "snd (io_bind m f) = (case snd m of Inl e \<Rightarrow> Inl e | Inr x \<Rightarrow> snd (f x))"
  by (simp add: io_bind_def split: sum.splits)

lemma fst_io_try: "fst (io_try m h) = (case snd m of Inl e \<Rightarrow> fst m @ fst (h e) | Inr x \<Rightarrow> fst m)"
  by (simp add: io_try_def split: sum.splits)

lemma snd_io_try: "snd (io_try m h) = (case snd m of Inl e \<Rightarrow> snd (h e) | Inr x \<Rightarrow> Inr x)"
  by (simp add: io_try_def split: sum.splits)

lemmas io_simps = fst_io_bind snd_io_bind fst_io_try snd_io_try io_then_def io_return_def
  io_raise_def write_file_def makedirs_def io_finally_def

subsection \<open>The stages, as pairs of trace and outcome\<close>

lemma extract_audio_trace:
  "fst (extract_audio w v jd) = [FfmpegRun v (path_join jd ''audio.mp3'')]"
  by (simp add: extract_audio_def io_simps Let_def split: sum.splits)

lemma extract_audio_result:
  "snd (extract_audio w v jd) =
     (case ffmpeg_run w v (path_join jd ''audio.mp3'') of Inl e \<Rightarrow> Inl e
      | Inr u \<Rightarrow> Inr (path_join jd ''audio.mp3''))"
  by (simp add: extract_audio_def io_simps Let_def split: sum.splits)

lemma transcribe_audio_result: "snd (transcribe_audio w ap) = whisper_transcribe w ap"
  by (simp add: transcribe_audio_def io_simps split: sum.splits)

lemma transcribe_audio_trace:
  "fst (transcribe_audio w ap) =
     WhisperTranscribe ap #
     (case whisper_transcribe w ap of Inl e \<Rightarrow> []
      | Inr t \<Rightarrow> [WriteFile (splitext_root ap @ ''.txt'') t])
     @ (if path_exists w ap then [RemoveFile ap] else [])"
  by (simp add: transcribe_audio_def io_simps split: sum.splits)

lemma generate_report_result:
  "\<exists>r. snd (generate_report w t kd) = Inr r"
  by (simp add: generate_report_def io_simps Let_def split: sum.splits)

lemma generate_report_trace:
  "\<exists>imgs. fst (generate_report w t kd) = [GenerateContent t imgs]"
  by (simp add: generate_report_def io_simps Let_def split: sum.splits)

lemma keyframes_loop_events:
  "list_all keyframe_event (fst (keyframes_loop w v kd scs saved))"
  by (induction w v kd scs saved rule: keyframes_loop.induct)
     (auto simp: io_simps Let_def split: sum.splits)

lemma extract_keyframes_events:
  "list_all keyframe_event (fst (extract_keyframes w v jd))"
  using keyframes_loop_events
  by (auto simp: extract_keyframes_def io_simps Let_def split: sum.splits)

lemma written_to_keyframe_events: "list_all keyframe_event tr \<Longrightarrow> written_to p tr = []"
  by (induction p tr rule: written_to.induct) auto

lemma published_keyframe_events: "list_all keyframe_event tr \<Longrightarrow> published tr = []"
  by (induction tr rule: published.induct) auto

lemma io_prefix_pair [simp]: "io_prefix t (t', r) = (t @ t', r)"
  by (simp add: io_prefix_def)

lemma io_bind_Inl [simp]: "io_bind (t, Inl e) f = (t, Inl e)"
  by (simp add: io_bind_def)

lemma io_bind_Inr [simp]: "io_bind (t, Inr x) f = io_prefix t (f x)"
  by (simp add: io_bind_def io_prefix_def)

lemma io_try_Inl [simp]: "io_try (t, Inl e) h = io_prefix t (h e)"
  by (simp add: io_try_def io_prefix_def)

lemma io_try_Inr [simp]: "io_try (t, Inr x) h = (t, Inr x)"
  by (simp add: io_try_def)

lemmas io_defs = io_then_def io_return_def io_raise_def write_file_def makedirs_def

lemma extract_audio_Inl:
  "ffmpeg_run w v (audio_path_of j) = Inl e \<Longrightarrow>
   extract_audio w v (job_dir_of j) = ([FfmpegRun v (audio_path_of j)], Inl e)"
  by (simp add: extract_audio_def audio_path_of_def Let_def)

lemma extract_audio_Inr:
  "ffmpeg_run w v (audio_path_of j) = Inr u \<Longrightarrow>
   extract_audio w v (job_dir_of j) = ([FfmpegRun v (audio_path_of j)], Inr (audio_path_of j))"
  by (simp add: extract_audio_def audio_path_of_def Let_def io_defs)

lemma transcribe_audio_Inl:
  "whisper_transcribe w ap = Inl e \<Longrightarrow>
   transcribe_audio w ap = (WhisperTranscribe ap # cleanup_audio w ap, Inl e)"
  by (simp add: transcribe_audio_def io_finally_def cleanup_audio_def)

lemma transcribe_audio_Inr:
  "whisper_transcribe w ap = Inr t \<Longrightarrow>
   transcribe_audio w ap =
     ([WhisperTranscribe ap, WriteFile (splitext_root ap @ ''.txt'') t] @ cleanup_audio w ap, Inr t)"
  by (simp add: transcribe_audio_def io_finally_def cleanup_audio_def io_defs Let_def)

lemma status_file_fold: "path_join (job_dir_of j) ''status.txt'' = status_file_of j"
  by (simp add: status_file_of_def job_dir_of_def)

lemma report_path_fold: "path_join (job_dir_of j) ''report.md'' = report_path_of j"
  by (simp add: report_path_of_def job_dir_of_def)

lemmas run_simps = io_defs status_file_fold report_path_fold local_error_status_def

lemma local_run_audio_fails:
  assumes "ffmpeg_run w v (audio_path_of j) = Inl e"
  shows "run_analysis_on_local_file w j v =
           ([WriteFile (status_file_of j) ''extracting_audio'',
             FfmpegRun v (audio_path_of j),
             WriteFile (status_file_of j) (local_error_status e)], Inl e)"
  unfolding run_analysis_on_local_file_def Let_def job_dir_of_def[symmetric]
  by (simp add: run_simps extract_audio_Inl[OF assms])

lemma local_run_transcription_fails:
  assumes "ffmpeg_run w v (audio_path_of j) = Inr u"
    and "whisper_transcribe w (audio_path_of j) = Inl e"
  shows "run_analysis_on_local_file w j v =
           ([WriteFile (status_file_of j) ''extracting_audio'',
             FfmpegRun v (audio_path_of j),
             WriteFile (status_file_of j) ''transcribing'',
             WhisperTranscribe (audio_path_of j)]
            @ cleanup_audio w (audio_path_of j)
            @ [WriteFile (status_file_of j) (local_error_status e)], Inl e)"
  unfolding run_analysis_on_local_file_def Let_def job_dir_of_def[symmetric]
  by (simp add: run_simps extract_audio_Inr[OF assms(1)] transcribe_audio_Inl[OF assms(2)])

lemma local_run_keyframes_fail:
  assumes "ffmpeg_run w v (audio_path_of j) = Inr u"
    and "whisper_transcribe w (audio_path_of j) = Inr t"
    and "snd (extract_keyframes w v (job_dir_of j)) = Inl e"
  shows "run_analysis_on_local_file w j v =
           (local_prefix w j v t
            @ fst (extract_keyframes w v (job_dir_of j))
            @ [WriteFile (status_file_of j) (local_error_status e)], Inl e)"
proof -
  have k: "extract_keyframes w v (job_dir_of j) = (fst (extract_keyframes w v (job_dir_of j)), Inl e)"
    using assms(3) by (simp add: prod_eq_iff)
  show ?thesis
    unfolding run_analysis_on_local_file_def Let_def job_dir_of_def[symmetric]
    by (subst k)
       (simp add: run_simps extract_audio_Inr[OF assms(1)] transcribe_audio_Inr[OF assms(2)]
          local_prefix_def transcript_path_of_def keyframes_dir_of_def)
qed

lemma generate_report_pair:
  "generate_report w t kd =
     ([GenerateContent t (filter (image_open w)
         (sort (map (path_join kd) (filter (\<lambda>f. endswith f ''.jpg'') (listdir w kd)))))],
      Inr (case generate_content w t (filter (image_open w)
         (sort (map (path_join kd) (filter (\<lambda>f. endswith f ''.jpg'') (listdir w kd))))) of
             Inl e \<Rightarrow> fallback_report e t | Inr text \<Rightarrow> text))"
  by (simp add: generate_report_def Let_def io_defs split: sum.splits)

lemma local_run_completes:
  assumes "ffmpeg_run w v (audio_path_of j) = Inr u"
    and "whisper_transcribe w (audio_path_of j) = Inr t"
    and "snd (extract_keyframes w v (job_dir_of j)) = Inr ks"
  shows "run_analysis_on_local_file w j v =
           (local_prefix w j v t
            @ fst (extract_keyframes w v (job_dir_of j))
            @ [WriteFile (status_file_of j) ''generating_report'',
               GenerateContent t (image_parts_of w j),
               WriteFile (report_path_of j) (report_of w j t),
               WriteFile (status_file_of j) ''complete''], Inr ())"
proof -
  have k: "extract_keyframes w v (job_dir_of j) = (fst (extract_keyframes w v (job_dir_of j)), Inr ks)"
    using assms(3) by (simp add: prod_eq_iff)
  show ?thesis
    unfolding run_analysis_on_local_file_def Let_def job_dir_of_def[symmetric]
    by (subst k)
       (simp add: run_simps extract_audio_Inr[OF assms(1)] transcribe_audio_Inr[OF assms(2)]
          local_prefix_def transcript_path_of_def keyframes_dir_of_def generate_report_pair
          image_parts_of_def report_of_def)
qed

lemma download_video_pair:
  "download_video w url (job_dir_of j) =
     (download_events w j url, ydl_extract_info w url (outtmpl_of j))"
  by (simp add: download_video_def download_events_def outtmpl_of_def Let_def)

lemma pipeline_rejected:
  assumes "\<not> url_accepted url"
  shows "run_analysis_pipeline w j url =
           ([WriteFile (status_file_of j) (''Error: '' @ unsupported_url_message)], Inr ())"
  using assms unfolding run_analysis_pipeline_def Let_def job_dir_of_def[symmetric] url_accepted_def
  by (simp add: run_simps)

lemma pipeline_download_raises:
  assumes "url_accepted url" and "ydl_extract_info w url (outtmpl_of j) = Inl e"
  shows "run_analysis_pipeline w j url =
           (WriteFile (status_file_of j) ''downloading'' # download_events w j url
            @ [WriteFile (status_file_of j) (url_error_status e)], Inr ())"
  using assms unfolding run_analysis_pipeline_def Let_def job_dir_of_def[symmetric] url_accepted_def
  by (simp add: run_simps download_video_pair url_error_status_def)

lemma pipeline_download_empty:
  assumes "url_accepted url" and "ydl_extract_info w url (outtmpl_of j) = Inr []"
  shows "run_analysis_pipeline w j url =
           (WriteFile (status_file_of j) ''downloading'' # download_events w j url
            @ [WriteFile (status_file_of j)
                 (url_error_status (Exn ''ValueError'' ''Failed to download video.''))], Inr ())"
  using assms unfolding run_analysis_pipeline_def Let_def job_dir_of_def[symmetric] url_accepted_def
  by (simp add: run_simps download_video_pair url_error_status_def)

lemma pipeline_downloaded:
  assumes "url_accepted url" and "ydl_extract_info w url (outtmpl_of j) = Inr v" and "v \<noteq> []"
  shows "run_analysis_pipeline w j url =
           (WriteFile (status_file_of j) ''downloading'' # download_events w j url
            @ fst (run_analysis_on_local_file w j v)
            @ (case snd (run_analysis_on_local_file w j v) of
                 Inl e \<Rightarrow> [WriteFile (status_file_of j) (url_error_status e)]
               | Inr u \<Rightarrow> []), Inr ())"
proof -
  obtain t r where k: "run_analysis_on_local_file w j v = (t, r)"
    by (cases "run_analysis_on_local_file w j v")
  show ?thesis
    using assms unfolding run_analysis_pipeline_def Let_def job_dir_of_def[symmetric] url_accepted_def
    by (cases r) (simp_all add: run_simps download_video_pair url_error_status_def k)
qed

lemma pipeline_returns: "snd (run_analysis_pipeline w j url) = Inr ()"
proof (cases "url_accepted url")
  case False
  then show ?thesis by (simp add: pipeline_rejected)
next
  case True
  show ?thesis
  proof (cases "ydl_extract_info w url (outtmpl_of j)")
    case (Inl e)
    with True show ?thesis by (simp add: pipeline_download_raises)
  next
    case (Inr v)
    with True show ?thesis
      by (cases "v = []") (simp_all add: pipeline_download_empty pipeline_downloaded)
  qed
qed

lemma written_to_download_events: "written_to p (download_events w j url) = []"
proof -
  have "written_to p (map (\<lambda>f. RemoveFile (g f)) fs) = []" for g and fs :: "string list"
    by (induction fs) auto
  then show ?thesis by (simp add: download_events_def)
qed

lemma published_download_events: "published (download_events w j url) = []"
proof -
  have "published (map (\<lambda>f. RemoveFile (g f)) fs) = []" for g and fs :: "string list"
    by (induction fs) auto
  then show ?thesis by (simp add: download_events_def)
qed

lemma written_to_cleanup_audio: "written_to p (cleanup_audio w ap) = []"
  by (simp add: cleanup_audio_def)

lemma published_cleanup_audio: "published (cleanup_audio w ap) = []"
  by (simp add: cleanup_audio_def)

lemma audio_path_of_eq: "audio_path_of j = join_base (job_dir_of j) @ ''audio.mp3''"
  by (simp add: audio_path_of_def path_join_rel startswith_def)

lemma transcript_path_of_eq: "transcript_path_of j = join_base (job_dir_of j) @ ''audio.txt''"
  by (simp add: transcript_path_of_def audio_path_of_eq splitext_root_audio)

lemma status_file_of_eq': "status_file_of j = join_base (job_dir_of j) @ ''status.txt''"
  by (simp add: status_file_of_eq job_dir_of_def)

lemma report_path_of_eq': "report_path_of j = join_base (job_dir_of j) @ ''report.md''"
  by (simp add: report_path_of_eq job_dir_of_def)

lemma paths_distinct:
  "transcript_path_of j \<noteq> status_file_of j"
  "report_path_of j \<noteq> status_file_of j"
  "status_file_of j \<noteq> report_path_of j"
  "transcript_path_of j \<noteq> report_path_of j"
  by (simp_all add: transcript_path_of_eq status_file_of_eq' report_path_of_eq')

lemma status_writes_local_prefix:
  "status_writes j (local_prefix w j v t) = [''extracting_audio'', ''transcribing'', ''extracting_frames'']"
  by (simp add: status_writes_def local_prefix_def paths_distinct written_to_cleanup_audio)

lemma status_writes_keyframes: "status_writes j (fst (extract_keyframes w v jd)) = []"
  unfolding status_writes_def
  by (rule written_to_keyframe_events) (rule extract_keyframes_events)

lemma status_writes_append: "status_writes j (a @ b) = status_writes j a @ status_writes j b"
  by (simp add: status_writes_def)

lemma local_status_writes:
  fixes w j v
  defines "r \<equiv> run_analysis_on_local_file w j v"
  shows "(snd r = Inr () \<and>
          status_writes j (fst r) =
            [''extracting_audio'', ''transcribing'', ''extracting_frames'',
             ''generating_report'', ''complete''])
       \<or> (\<exists>e. snd r = Inl e \<and>
            (status_writes j (fst r) = [''extracting_audio'', local_error_status e]
           \<or> status_writes j (fst r) = [''extracting_audio'', ''transcribing'', local_error_status e]
           \<or> status_writes j (fst r) =
                [''extracting_audio'', ''transcribing'', ''extracting_frames'',
                 local_error_status e]))"
proof (cases "ffmpeg_run w v (audio_path_of j)")
  case (Inl e)
  show ?thesis
    unfolding r_def local_run_audio_fails[OF Inl] by (simp add: status_writes_def)
next
  case a: (Inr u)
  show ?thesis
  proof (cases "whisper_transcribe w (audio_path_of j)")
    case (Inl e)
    show ?thesis
      unfolding r_def local_run_transcription_fails[OF a Inl]
      by (simp add: status_writes_def written_to_cleanup_audio)
  next
    case t: (Inr t)
    show ?thesis
    proof (cases "snd (extract_keyframes w v (job_dir_of j))")
      case (Inl e)
      show ?thesis
        unfolding r_def local_run_keyframes_fail[OF a t Inl]
        by (simp add: status_writes_append status_writes_local_prefix status_writes_keyframes)
           (simp add: status_writes_def)
    next
      case (Inr ks)
      show ?thesis
        unfolding r_def local_run_completes[OF a t Inr]
        by (simp add: status_writes_append status_writes_local_prefix status_writes_keyframes)
           (simp add: status_writes_def paths_distinct)
    qed
  qed
qed


subsection \<open>Publishing, the gate, and the order of status writes\<close>

lemma published_keyframes: "published (fst (extract_keyframes w v jd)) = []"
  by (rule published_keyframe_events) (rule extract_keyframes_events)

lemma published_local_prefix: "published (local_prefix w j v t) = []"
  by (simp add: local_prefix_def published_cleanup_audio)

lemma published_local: "published (fst (run_analysis_on_local_file w j v)) = []"
proof (cases "ffmpeg_run w v (audio_path_of j)")
  case (Inl e)
  show ?thesis by (simp add: local_run_audio_fails[OF Inl])
next
  case a: (Inr u)
  show ?thesis
  proof (cases "whisper_transcribe w (audio_path_of j)")
    case (Inl e)
    show ?thesis by (simp add: local_run_transcription_fails[OF a Inl] published_cleanup_audio)
  next
    case t: (Inr t)
    show ?thesis
    proof (cases "snd (extract_keyframes w v (job_dir_of j))")
      case (Inl e)
      show ?thesis
        by (simp add: local_run_keyframes_fail[OF a t Inl] published_local_prefix published_keyframes)
    next
      case (Inr ks)
      show ?thesis
        by (simp add: local_run_completes[OF a t Inr] published_local_prefix published_keyframes)
    qed
  qed
qed

lemma published_pipeline: "published (fst (run_analysis_pipeline w j url)) = []"
proof (cases "url_accepted url")
  case False
  then show ?thesis by (simp add: pipeline_rejected)
next
  case True
  show ?thesis
  proof (cases "ydl_extract_info w url (outtmpl_of j)")
    case (Inl e)
    with True show ?thesis by (simp add: pipeline_download_raises published_download_events)
  next
    case (Inr v)
    with True show ?thesis
      by (cases "v = []")
         (simp_all add: pipeline_download_empty pipeline_downloaded published_download_events
            published_local split: sum.splits)
  qed
qed

lemma send_event_subscribed:
  "conns j = Some q \<Longrightarrow> send_event conns j m = ([QueuePut j m], conns(j \<mapsto> q @ [m]))"
  by (simp add: send_event_def)

lemma notify_url:
  "run_analysis_and_notify w conns j url =
     (fst (run_analysis_pipeline w j url) @ fst (send_event conns j ''complete''),
      snd (send_event conns j ''complete''))"
  by (simp add: run_analysis_and_notify_def Let_def pipeline_returns)

lemma notify_local:
  "run_local_file_analysis_and_notify w conns j v =
     (fst (run_analysis_on_local_file w j v)
        @ fst (send_event conns j
                 (case snd (run_analysis_on_local_file w j v) of
                    Inr u \<Rightarrow> ''complete'' | Inl e \<Rightarrow> ''error'')),
      snd (send_event conns j
             (case snd (run_analysis_on_local_file w j v) of
                Inr u \<Rightarrow> ''complete'' | Inl e \<Rightarrow> ''error'')))"
  by (simp add: run_local_file_analysis_and_notify_def Let_def split: sum.splits)

lemma is_download_events: "list_ex is_download (download_events w j url)"
  by (simp add: download_events_def)

lemma url_accepted_iff:
  "url_accepted url \<longleftrightarrow>
     (\<exists>p q. url = p @ ''/video/'' @ q) \<or> (\<exists>p q. url = p @ ''/note/'' @ q)"
  unfolding url_accepted_def str_in_iff ..

lemma pipeline_downloads_iff:
  "list_ex is_download (fst (run_analysis_pipeline w j url)) \<longleftrightarrow> url_accepted url"
proof (cases "url_accepted url")
  case False
  then show ?thesis by (simp add: pipeline_rejected)
next
  case True
  show ?thesis
  proof (cases "ydl_extract_info w url (outtmpl_of j)")
    case (Inl e)
    with True show ?thesis by (simp add: pipeline_download_raises is_download_events)
  next
    case (Inr v)
    with True show ?thesis
      by (cases "v = []")
         (simp_all add: pipeline_download_empty pipeline_downloaded is_download_events)
  qed
qed

lemma error_status_simps:
  "is_error_status (local_error_status e)"
  "is_error_status (url_error_status e)"
  "is_error_status (''Error: '' @ m)"
  "stage_rank (local_error_status e) = None"
  "stage_rank (url_error_status e) = None"
  "stage_rank (''Error: '' @ m) = None"
  by (simp_all add: is_error_status_def local_error_status_def url_error_status_def
        startswith_def stage_rank_def)

lemma stage_rank_simps:
  "stage_rank ''downloading'' = Some 0"
  "stage_rank ''extracting_audio'' = Some 1"
  "stage_rank ''transcribing'' = Some 2"
  "stage_rank ''extracting_frames'' = Some 3"
  "stage_rank ''generating_report'' = Some 4"
  "stage_rank ''complete'' = Some 5"
  by (simp_all add: stage_rank_def)

lemma monotone_local:
  "monotone_status (status_writes j (fst (run_analysis_on_local_file w j v)))"
  using local_status_writes[of w j v]
  by (auto simp: error_status_simps stage_rank_simps)

lemma status_writes_download_events: "status_writes j (download_events w j' url) = []"
  by (simp add: status_writes_def written_to_download_events)

lemma status_writes_Cons:
  "status_writes j (WriteFile (status_file_of j) s # tr) = s # status_writes j tr"
  by (simp add: status_writes_def)

lemma monotone_pipeline:
  "monotone_status (status_writes j (fst (run_analysis_pipeline w j url)))"
proof (cases "url_accepted url")
  case False
  then show ?thesis
    by (simp add: pipeline_rejected status_writes_def is_error_status_def startswith_def
          stage_rank_def)
next
  case True
  show ?thesis
  proof (cases "ydl_extract_info w url (outtmpl_of j)")
    case (Inl e)
    with True show ?thesis
      by (simp add: pipeline_download_raises status_writes_Cons status_writes_append
            status_writes_download_events)
         (simp add: status_writes_def error_status_simps stage_rank_simps)
  next
    case (Inr v)
    show ?thesis
    proof (cases "v = []")
      case True
      with \<open>url_accepted url\<close> Inr show ?thesis
        by (simp add: pipeline_download_empty status_writes_Cons status_writes_append
              status_writes_download_events)
           (simp add: status_writes_def error_status_simps stage_rank_simps)
    next
      case False
      from local_status_writes[of w j v] show ?thesis
        unfolding pipeline_downloaded[OF \<open>url_accepted url\<close> Inr False]
        by (auto simp: status_writes_def written_to_download_events
              error_status_simps stage_rank_simps)
    qed
  qed
qed


subsection \<open>The fallback report and the effects of the later stages\<close>

lemma not_after_transcription_cleanup: "\<not> list_ex after_transcription (cleanup_audio w ap)"
  by (simp add: cleanup_audio_def)

lemma not_after_transcription_download: "\<not> list_ex after_transcription (download_events w j url)"
  by (auto simp: download_events_def list_ex_iff)

lemma str_in_append_right: "str_in sub (p @ sub)"
  unfolding str_in_iff by (rule exI[of _ p], rule exI[of _ "[]"]) simp

lemma str_in_prepend: "str_in sub s \<Longrightarrow> str_in sub (p @ s)"
  unfolding str_in_iff by (metis append.assoc)

lemma str_in_extend: "str_in sub s \<Longrightarrow> str_in sub (s @ q)"
  unfolding str_in_iff by (metis append.assoc)



lemma snd_io_prefix [simp]: "snd (io_prefix t m) = snd m"
  by (simp add: io_prefix_def)


subsection \<open>The keyframe loop and the file system\<close>

lemma seeks_append [simp]: "seeks (a @ b) = seeks a @ seeks b"
  by (induction a rule: seeks.induct) auto

lemma image_paths_append [simp]: "image_paths (a @ b) = image_paths a @ image_paths b"
  by (induction a rule: image_paths.induct) auto

lemma fst_io_prefix [simp]: "fst (io_prefix t m) = t @ fst m"
  by (simp add: io_prefix_def)

lemma keyframes_loop_Cons:
  "keyframes_loop w v kd ((i, s, e) # rest) saved =
     (case read_at w v (s, e) of
        Inl ex \<Rightarrow> ([Seek v (middle_frame_num s e)], Inl ex)
      | Inr frame_image \<Rightarrow>
          if frame_image \<noteq> PyNone
          then io_prefix [Seek v (middle_frame_num s e),
                          ImWrite (numbered_path kd (i, s, e)) frame_image]
                 (keyframes_loop w v kd rest (saved @ [numbered_path kd (i, s, e)]))
          else io_prefix [Seek v (middle_frame_num s e)] (keyframes_loop w v kd rest saved))"
  by (simp add: Let_def io_then_def read_at_def numbered_path_def keyframe_name_def
        split: sum.splits)

declare keyframes_loop.simps(2) [simp del]

lemma snd_enumerate_in: "sc \<in> set (enumerate n xs) \<Longrightarrow> snd sc \<in> set xs"
  by (induction xs arbitrary: n) auto

lemma keyframes_loop_seeks_prefix:
  "prefix (seeks (fst (keyframes_loop w v kd scs saved)))
          (map (\<lambda>sc. middle_frame_num (fst (snd sc)) (snd (snd sc))) scs)"
proof (induction scs arbitrary: saved)
  case Nil
  show ?case by (simp add: io_return_def)
next
  case (Cons sc scs)
  obtain i s e where sc: "sc = (i, s, e)" by (cases sc)
  show ?case
    using Cons.IH
    by (cases "read_at w v (s, e)") (simp_all add: sc keyframes_loop_Cons)
qed

lemma keyframes_loop_no_raise:
  assumes "\<forall>sc \<in> set scs. \<forall>ex. read_at w v (snd sc) \<noteq> Inl ex"
  shows "seeks (fst (keyframes_loop w v kd scs saved))
           = map (\<lambda>sc. middle_frame_num (fst (snd sc)) (snd (snd sc))) scs
       \<and> image_paths (fst (keyframes_loop w v kd scs saved))
           = map (numbered_path kd) (filter (\<lambda>sc. read_at w v (snd sc) \<noteq> Inr PyNone) scs)
       \<and> snd (keyframes_loop w v kd scs saved)
           = Inr (saved @ map (numbered_path kd)
                            (filter (\<lambda>sc. read_at w v (snd sc) \<noteq> Inr PyNone) scs))"
  using assms
proof (induction scs arbitrary: saved)
  case Nil
  show ?case by (simp add: io_return_def)
next
  case (Cons sc scs)
  obtain i s e where sc: "sc = (i, s, e)" by (cases sc)
  from Cons.prems have rest: "\<forall>sc \<in> set scs. \<forall>ex. read_at w v (snd sc) \<noteq> Inl ex" by simp
  from Cons.prems obtain r where r: "read_at w v (s, e) = Inr r"
    by (cases "read_at w v (s, e)") (auto simp: sc)
  show ?case
    using Cons.IH[OF rest]
    by (simp add: sc keyframes_loop_Cons r)
qed



lemma extract_keyframes_detected:
  "detect_scenes w v = Inr scene_list \<Longrightarrow>
   extract_keyframes w v job_dir
     = io_prefix [MakeDirs (path_join job_dir ''keyframes''), DetectScenes v]
         (keyframes_loop w v (path_join job_dir ''keyframes'') (enumerate 0 scene_list) [])"
  by (simp add: extract_keyframes_def Let_def io_then_def makedirs_def io_prefix_def)

lemma map_enumerate_snd: "map (\<lambda>sc. f (snd sc)) (enumerate n xs) = map f xs"
  by (induction xs arbitrary: n) auto

lemma middle_frame_num_floor:
  "middle_frame_num s e = int s + \<lfloor>(of_int (int e - int s) :: rat) / 2\<rfloor>"
proof -
  have "\<lfloor>(of_int (int e - int s) :: rat) / 2\<rfloor> = (int e - int s) div 2"
    using floor_divide_of_int_eq[of "int e - int s" 2, where ?'a = rat] by simp
  then show ?thesis
    unfolding middle_frame_num_eq by presburger
qed

lemma numbered_path_eq:
  "(\<lambda>sc. path_join kd (''keyframe_'' @ fmt_03d (fst sc + 1) @ ''.jpg'')) = numbered_path kd"
  by (simp add: numbered_path_def fun_eq_iff)




lemma dir_prefixes_shorter:
  "q \<in> set (dir_prefixes seen cs) \<Longrightarrow> length q < length seen + length cs"
proof (induction cs arbitrary: seen)
  case Nil
  then show ?case by simp
next
  case (Cons c cs)
  from Cons.prems consider "q = seen" | "q \<in> set (dir_prefixes (seen @ [c]) cs)"
    by (auto split: if_splits)
  then show ?case
  proof cases
    case 1
    then show ?thesis by simp
  next
    case 2
    from Cons.IH[OF 2] show ?thesis by simp
  qed
qed

lemma parents_shorter: "q \<in> set (parents p) \<Longrightarrow> length q < length p"
  using dir_prefixes_shorter[of q "[]" p] by (simp add: parents_def)

lemma length_path_join_rel:
  "\<not> startswith b ''/'' \<Longrightarrow> b \<noteq> [] \<Longrightarrow> length a < length (path_join a b)"
  by (auto simp: path_join_def)

lemma video_path_not_created:
  "path_join jd ''video.mp4'' \<notin> set (parents jd) \<union> {jd}"
proof -
  have "length jd < length (path_join jd ''video.mp4'')"
    by (rule length_path_join_rel) (simp_all add: startswith_def)
  then show ?thesis
    using parents_shorter[of "path_join jd ''video.mp4''" jd] by auto
qed

lemma video_path_ne_status:
  "path_join (path_join TEMP_STORAGE_PATH j) ''video.mp4'' \<noteq> status_file_of j"
  by (simp add: status_file_of_eq path_join_rel startswith_def)

lemma os_makedirs_blocked:
  "path_blocked s p \<Longrightarrow> \<exists>e. os_makedirs_exist_ok s p = Inl e"
  by (auto simp: path_blocked_def os_makedirs_exist_ok_def)

lemma os_makedirs_free:
  "\<not> path_blocked s p \<Longrightarrow>
   os_makedirs_exist_ok s p = Inr (s\<lparr>dirs := dirs s \<union> set (parents p) \<union> {p}\<rparr>)"
  by (auto simp: path_blocked_def os_makedirs_exist_ok_def)


section \<open>Keyframe selection\<close>

text \<open>
  C5. The frame numbers the selector seeks to, in order, are the floor midpoints
  \<open>start + floor((end - start) / 2)\<close> of the scenes of the scene list, in
  order: of all of them when the frame accessor never raises, and otherwise of the
  scenes up to the one at which it raised. The bounds are those within which the
  division, done in doubles by the program, is exact.
\<close>

theorem selector_seeks_to_floor_midpoints:
  assumes "detect_scenes w v = Inr scene_list"
    and "\<forall>scene \<in> set scene_list. fst scene < 2 ^ 52 \<and> snd scene < 2 ^ 52"
  shows "prefix (seeks (fst (extract_keyframes w v job_dir)))
           (map (\<lambda>scene. int (fst scene)
                   + \<lfloor>(of_int (int (snd scene) - int (fst scene)) :: rat) / 2\<rfloor>) scene_list)
       \<and> ((\<forall>scene \<in> set scene_list. \<forall>ex. read_at w v scene \<noteq> Inl ex) \<longrightarrow>
            seeks (fst (extract_keyframes w v job_dir))
              = map (\<lambda>scene. int (fst scene)
                      + \<lfloor>(of_int (int (snd scene) - int (fst scene)) :: rat) / 2\<rfloor>) scene_list)"
proof -
  let ?kd = "path_join job_dir ''keyframes''"
  let ?scs = "enumerate 0 scene_list"
  have m: "map (\<lambda>sc. middle_frame_num (fst (snd sc)) (snd (snd sc))) ?scs
             = map (\<lambda>scene. int (fst scene)
                     + \<lfloor>(of_int (int (snd scene) - int (fst scene)) :: rat) / 2\<rfloor>) scene_list"
    using map_enumerate_snd[of "\<lambda>scene. middle_frame_num (fst scene) (snd scene)" 0 scene_list]
    by (simp add: middle_frame_num_floor)
  have s: "seeks (fst (extract_keyframes w v job_dir))
             = seeks (fst (keyframes_loop w v ?kd ?scs []))"
    by (simp add: extract_keyframes_detected[OF assms(1)])
  have 1: "prefix (seeks (fst (extract_keyframes w v job_dir)))
             (map (\<lambda>scene. int (fst scene)
                     + \<lfloor>(of_int (int (snd scene) - int (fst scene)) :: rat) / 2\<rfloor>) scene_list)"
    using keyframes_loop_seeks_prefix[of w v ?kd ?scs "[]"] unfolding s m .
  have 2: "seeks (fst (extract_keyframes w v job_dir))
              = map (\<lambda>scene. int (fst scene)
                      + \<lfloor>(of_int (int (snd scene) - int (fst scene)) :: rat) / 2\<rfloor>) scene_list"
    if "\<forall>scene \<in> set scene_list. \<forall>ex. read_at w v scene \<noteq> Inl ex"
  proof -
    from that have "\<forall>sc \<in> set ?scs. \<forall>ex. read_at w v (snd sc) \<noteq> Inl ex"
      by (auto dest: snd_enumerate_in)
    from keyframes_loop_no_raise[OF this, of ?kd "[]"] show ?thesis
      unfolding s m by simp
  qed
  from 1 2 show ?thesis by blast
qed

text \<open>C5 on the scenes \<open>[0, 10)\<close> and \<open>[10, 13)\<close>: the selector seeks to 5 and 11.\<close>

theorem selector_seeks_to_floor_midpoints_witness:
  "seeks (fst (extract_keyframes (calm_world\<lparr>detect_scenes := (\<lambda>v. Inr [(0, 10), (10, 13)])\<rparr>)
                 ''temp_storage/job1/video.mp4'' ''temp_storage/job1'')) = [5, 11]"
proof -
  let ?w = "calm_world\<lparr>detect_scenes := (\<lambda>v. Inr [(0, 10), (10, 13)])\<rparr>"
  have a: "detect_scenes ?w ''temp_storage/job1/video.mp4'' = Inr [(0, 10), (10, 13)]"
    by simp
  have b: "\<forall>scene \<in> set [(0::nat, 10::nat), (10, 13)]. fst scene < 2 ^ 52 \<and> snd scene < 2 ^ 52"
    by simp
  have c: "\<forall>scene \<in> set [(0::nat, 10::nat), (10, 13)].
             \<forall>ex. read_at ?w ''temp_storage/job1/video.mp4'' scene \<noteq> Inl ex"
    by (simp add: read_at_def calm_world_def)
  from selector_seeks_to_floor_midpoints[OF a b, of "''temp_storage/job1''"] c
  show ?thesis by (simp add: floor_eq_iff)
qed

text \<open>
  C6 (as amended). When the frame accessor never raises, a scene whose read hands back
  \<open>None\<close> is skipped: no image is written for it and nothing is added to the
  returned list. The images written, in order, and the returned list are the same
  paths, and the file of a scene is numbered by the scene's 1-based position in the
  scene list, rendered with \<open>03d\<close>, not by its position among the emitted files.
\<close>

theorem keyframe_files_are_numbered_by_scene_position:
  assumes "detect_scenes w v = Inr scene_list"
    and "\<forall>scene \<in> set scene_list. \<forall>ex. read_at w v scene \<noteq> Inl ex"
  shows "image_paths (fst (extract_keyframes w v job_dir))
           = map (\<lambda>sc. path_join (path_join job_dir ''keyframes'')
                          (''keyframe_'' @ fmt_03d (fst sc + 1) @ ''.jpg''))
               (filter (\<lambda>sc. read_at w v (snd sc) \<noteq> Inr PyNone) (enumerate 0 scene_list))
       \<and> snd (extract_keyframes w v job_dir)
           = Inr (map (\<lambda>sc. path_join (path_join job_dir ''keyframes'')
                               (''keyframe_'' @ fmt_03d (fst sc + 1) @ ''.jpg''))
                    (filter (\<lambda>sc. read_at w v (snd sc) \<noteq> Inr PyNone) (enumerate 0 scene_list)))"
proof -
  from assms(2) have "\<forall>sc \<in> set (enumerate 0 scene_list). \<forall>ex. read_at w v (snd sc) \<noteq> Inl ex"
    by (auto dest: snd_enumerate_in)
  from keyframes_loop_no_raise[OF this, of "path_join job_dir ''keyframes''" "[]"]
  show ?thesis
    unfolding numbered_path_eq
    by (simp add: extract_keyframes_detected[OF assms(1)])
qed

text \<open>The amended C6 on two scenes of which the first read hands back \<open>None\<close>.\<close>

theorem keyframe_files_are_numbered_by_scene_position_witness:
  "image_paths
     (fst (extract_keyframes
             (calm_world\<lparr>seek_read := (\<lambda>v n. if n = 5 then Inr PyNone else Inr (Ndarray ''frame''))\<rparr>)
             ''temp_storage/job1/video.mp4'' ''temp_storage/job1''))
     = [''temp_storage/job1/keyframes/keyframe_002.jpg'']
   \<and> snd (extract_keyframes
             (calm_world\<lparr>seek_read := (\<lambda>v n. if n = 5 then Inr PyNone else Inr (Ndarray ''frame''))\<rparr>)
             ''temp_storage/job1/video.mp4'' ''temp_storage/job1'')
     = Inr [''temp_storage/job1/keyframes/keyframe_002.jpg'']"
proof -
  let ?w = "calm_world\<lparr>seek_read := (\<lambda>v n. if n = 5 then Inr PyNone else Inr (Ndarray ''frame''))\<rparr>"
  have a: "detect_scenes ?w ''temp_storage/job1/video.mp4'' = Inr [(0, 10), (10, 20)]"
    by (simp add: calm_world_def)
  have b: "\<forall>scene \<in> set [(0::nat, 10::nat), (10, 20)].
             \<forall>ex. read_at ?w ''temp_storage/job1/video.mp4'' scene \<noteq> Inl ex"
    by (simp add: read_at_def)
  have c: "map (\<lambda>sc. path_join (path_join ''temp_storage/job1'' ''keyframes'')
                               (''keyframe_'' @ fmt_03d (fst sc + 1) @ ''.jpg''))
             (filter (\<lambda>sc. read_at ?w ''temp_storage/job1/video.mp4'' (snd sc) \<noteq> Inr PyNone)
                (enumerate 0 [(0::nat, 10::nat), (10, 20)]))
           = [''temp_storage/job1/keyframes/keyframe_002.jpg'']"
    by code_simp
  from keyframe_files_are_numbered_by_scene_position[OF a b, of "''temp_storage/job1''"]
  show ?thesis unfolding c .
qed

text \<open>
  C6 as stated fails. With two scenes of which the first read hands back
  \<open>None\<close>, the first and only file written is \<open>keyframe_002.jpg\<close>. With two
  scenes of which the first read hands back \<open>False\<close>, the scene is not skipped:
  \<open>cv2.imwrite\<close> is called with \<open>False\<close> for \<open>keyframe_001.jpg\<close> and
  the path is counted among the emitted ones.
\<close>

theorem keyframe_numbering_has_gaps_and_false_is_written:
  "extract_keyframes
     (calm_world\<lparr>seek_read := (\<lambda>v n. if n = 5 then Inr PyNone else Inr (Ndarray ''frame''))\<rparr>)
     ''temp_storage/job1/video.mp4'' ''temp_storage/job1''
     = ([MakeDirs ''temp_storage/job1/keyframes'',
         DetectScenes ''temp_storage/job1/video.mp4'',
         Seek ''temp_storage/job1/video.mp4'' 5,
         Seek ''temp_storage/job1/video.mp4'' 15,
         ImWrite ''temp_storage/job1/keyframes/keyframe_002.jpg'' (Ndarray ''frame'')],
        Inr [''temp_storage/job1/keyframes/keyframe_002.jpg''])
   \<and> extract_keyframes
     (calm_world\<lparr>seek_read := (\<lambda>v n. if n = 5 then Inr PyFalse else Inr (Ndarray ''frame''))\<rparr>)
     ''temp_storage/job1/video.mp4'' ''temp_storage/job1''
     = ([MakeDirs ''temp_storage/job1/keyframes'',
         DetectScenes ''temp_storage/job1/video.mp4'',
         Seek ''temp_storage/job1/video.mp4'' 5,
         ImWrite ''temp_storage/job1/keyframes/keyframe_001.jpg'' PyFalse,
         Seek ''temp_storage/job1/video.mp4'' 15,
         ImWrite ''temp_storage/job1/keyframes/keyframe_002.jpg'' (Ndarray ''frame'')],
        Inr [''temp_storage/job1/keyframes/keyframe_001.jpg'',
             ''temp_storage/job1/keyframes/keyframe_002.jpg''])"
  by code_simp





section \<open>The URL gate and the progress stream\<close>

text \<open>
  C1 (the code departs from it). A job created from a rejected URL, here a bare profile
  URL, with a live subscriber: the status file receives the rejection text and nothing
  is downloaded, but \<open>run_analysis_pipeline\<close> returns normally, so
  \<open>run_analysis_and_notify\<close> puts \<open>complete\<close> on the subscriber's queue,
  not \<open>error\<close>.
\<close>

theorem rejected_url_is_announced_as_complete:
  "run_analysis_and_notify w (Map.empty(''job1'' \<mapsto> [])) ''job1'' ''https://www.tiktok.com/@someuser''
     = ([WriteFile ''temp_storage/job1/status.txt'' (''Error: '' @ unsupported_url_message),
         QueuePut ''job1'' ''complete''],
        Map.empty(''job1'' \<mapsto> [''complete'']))"
proof -
  have r: "\<not> url_accepted ''https://www.tiktok.com/@someuser''"
    by (simp add: url_accepted_def)
  have s: "status_file_of ''job1'' = ''temp_storage/job1/status.txt''"
    by (simp add: status_file_of_def path_join_def TEMP_STORAGE_PATH_def startswith_def endswith_def suffix_to_prefix)
  show ?thesis
    by (simp add: notify_url pipeline_rejected[OF r] s send_event_def)
qed

text \<open>
  C2 (as amended). For a job with a live subscriber, a run publishes exactly one event:
  the terminal one, \<open>complete\<close> or \<open>error\<close>, appended to the subscriber's
  queue after every effect of the pipeline, hence after every write to the status file.
  The pipeline itself publishes nothing: the stage transitions reach the status file
  only. For an uploaded file the event is \<open>complete\<close> exactly when the pipeline
  returned without an exception.
\<close>

theorem notify_publishes_only_the_terminal_event:
  assumes "conns j = Some q"
  shows "(\<exists>m. (m = ''complete'' \<or> m = ''error'')
            \<and> (m = ''complete'' \<longleftrightarrow> snd (run_analysis_on_local_file w j v) = Inr ())
            \<and> run_local_file_analysis_and_notify w conns j v
                 = (fst (run_analysis_on_local_file w j v) @ [QueuePut j m], conns(j \<mapsto> q @ [m])))
       \<and> published (fst (run_analysis_on_local_file w j v)) = []
       \<and> (\<exists>m. (m = ''complete'' \<or> m = ''error'')
            \<and> run_analysis_and_notify w conns j url
                 = (fst (run_analysis_pipeline w j url) @ [QueuePut j m], conns(j \<mapsto> q @ [m])))
       \<and> published (fst (run_analysis_pipeline w j url)) = []"
proof -
  have "\<exists>m. (m = ''complete'' \<or> m = ''error'')
            \<and> (m = ''complete'' \<longleftrightarrow> snd (run_analysis_on_local_file w j v) = Inr ())
            \<and> run_local_file_analysis_and_notify w conns j v
                 = (fst (run_analysis_on_local_file w j v) @ [QueuePut j m], conns(j \<mapsto> q @ [m]))"
    using assms by (cases "snd (run_analysis_on_local_file w j v)")
       (simp_all add: notify_local send_event_subscribed)
  moreover have "\<exists>m. (m = ''complete'' \<or> m = ''error'')
            \<and> run_analysis_and_notify w conns j url
                 = (fst (run_analysis_pipeline w j url) @ [QueuePut j m], conns(j \<mapsto> q @ [m]))"
    using assms by (simp add: notify_url send_event_subscribed)
  ultimately show ?thesis
    by (simp only: published_local published_pipeline simp_thms)
qed

text \<open>The amended C2 on a run where every collaborator succeeds.\<close>

theorem notify_publishes_only_the_terminal_event_witness:
  "(Map.empty(''job1'' \<mapsto> [])) ''job1'' = Some []
   \<and> published (fst (run_local_file_analysis_and_notify calm_world (Map.empty(''job1'' \<mapsto> []))
         ''job1'' ''temp_storage/job1/video.mp4'')) = [(''job1'', ''complete'')]
   \<and> snd (run_local_file_analysis_and_notify calm_world (Map.empty(''job1'' \<mapsto> []))
         ''job1'' ''temp_storage/job1/video.mp4'') ''job1'' = Some [''complete'']"
proof -
  have h: "(Map.empty(''job1'' \<mapsto> [])) ''job1'' = Some []"
    by simp
  have ok: "snd (run_analysis_on_local_file calm_world ''job1'' ''temp_storage/job1/video.mp4'') = Inr ()"
    by code_simp
  from notify_publishes_only_the_terminal_event
         [where conns = "Map.empty(''job1'' \<mapsto> [])" and j = "''job1''" and q = "[]"
            and w = calm_world and v = "''temp_storage/job1/video.mp4''" and url = "''''"] h ok
  show ?thesis by auto
qed

text \<open>
  C2 as stated fails: on an upload where every collaborator succeeds the status file
  goes through five stages, and the subscriber is sent one event.
\<close>

theorem stage_transitions_are_not_published:
  "status_writes ''job1''
     (fst (run_local_file_analysis_and_notify calm_world (Map.empty(''job1'' \<mapsto> []))
        ''job1'' ''temp_storage/job1/video.mp4''))
     = [''extracting_audio'', ''transcribing'', ''extracting_frames'', ''generating_report'', ''complete'']
   \<and> map snd (published
        (fst (run_local_file_analysis_and_notify calm_world (Map.empty(''job1'' \<mapsto> []))
           ''job1'' ''temp_storage/job1/video.mp4'')))
     = [''complete'']"
  by code_simp

text \<open>
  C10. The gate is substring membership: the pipeline calls the downloader if and only
  if the URL contains \<open>/video/\<close> or \<open>/note/\<close> somewhere; otherwise it writes
  the rejection text to the status file and returns normally.
\<close>

theorem url_gate_is_substring_membership:
  "(list_ex is_download (fst (run_analysis_pipeline w j url))
      \<longleftrightarrow> (\<exists>p q. url = p @ ''/video/'' @ q) \<or> (\<exists>p q. url = p @ ''/note/'' @ q))
   \<and> (\<not> ((\<exists>p q. url = p @ ''/video/'' @ q) \<or> (\<exists>p q. url = p @ ''/note/'' @ q))
        \<longrightarrow> run_analysis_pipeline w j url
             = ([WriteFile (status_file_of j) (''Error: '' @ unsupported_url_message)], Inr ()))"
  unfolding url_accepted_iff[symmetric]
  by (simp add: pipeline_downloads_iff pipeline_rejected)

text \<open>
  C10 on a search URL that embeds \<open>/video/\<close> (accepted) and on a profile URL
  (rejected).
\<close>

theorem url_gate_is_substring_membership_witness:
  "list_ex is_download
     (fst (run_analysis_pipeline calm_world ''job1'' ''https://www.tiktok.com/search?q=/video/''))
   \<and> run_analysis_pipeline calm_world ''job1'' ''https://www.tiktok.com/@someuser''
       = ([WriteFile (status_file_of ''job1'') (''Error: '' @ unsupported_url_message)], Inr ())"
proof -
  have a: "url_accepted ''https://www.tiktok.com/search?q=/video/''"
    by (simp add: url_accepted_def)
  have r: "\<not> url_accepted ''https://www.tiktok.com/@someuser''"
    by (simp add: url_accepted_def)
  from url_gate_is_substring_membership[of calm_world "''job1''" "''https://www.tiktok.com/search?q=/video/''"]
       url_gate_is_substring_membership[of calm_world "''job1''" "''https://www.tiktok.com/@someuser''"]
       a r
  show ?thesis unfolding url_accepted_iff by blast
qed


section \<open>The job state machine\<close>

text \<open>
  C4. From either entry point, the sequence of texts written to a job's status file is
  monotone: stages in pipeline order, then possibly failures, and no stage after a
  failure.
\<close>

theorem status_writes_are_monotone:
  "monotone_status (status_writes j (fst (run_analysis_on_local_file w j v)))
   \<and> monotone_status (status_writes j (fst (run_analysis_pipeline w j url)))"
  by (simp add: monotone_local monotone_pipeline)

text \<open>C4 on a URL job whose transcription fails: three stages, then two failure writes.\<close>

theorem status_writes_are_monotone_witness:
  "status_writes ''job1''
     (fst (run_analysis_pipeline
             (calm_world\<lparr>whisper_transcribe := (\<lambda>a. Inl (Exn ''RuntimeError'' ''no speech''))\<rparr>)
             ''job1'' ''https://www.tiktok.com/@u/video/1''))
     = [''downloading'', ''extracting_audio'', ''transcribing'',
        ''error: Error during analysis: no speech'', ''error: An error occurred: no speech'']
   \<and> monotone_status
        [''downloading'', ''extracting_audio'', ''transcribing'',
         ''error: Error during analysis: no speech'', ''error: An error occurred: no speech'']"
proof -
  have e: "status_writes ''job1''
     (fst (run_analysis_pipeline
             (calm_world\<lparr>whisper_transcribe := (\<lambda>a. Inl (Exn ''RuntimeError'' ''no speech''))\<rparr>)
             ''job1'' ''https://www.tiktok.com/@u/video/1''))
     = [''downloading'', ''extracting_audio'', ''transcribing'',
        ''error: Error during analysis: no speech'', ''error: An error occurred: no speech'']"
    by code_simp
  from status_writes_are_monotone
         [of "''job1''" "calm_world\<lparr>whisper_transcribe := (\<lambda>a. Inl (Exn ''RuntimeError'' ''no speech''))\<rparr>"
             "''v''" "''https://www.tiktok.com/@u/video/1''"]
  show ?thesis unfolding e by simp
qed

text \<open>
  C9. If audio extraction succeeds and the transcriber raises, the run ends with the
  exception, the status file ends in a failure text, a subscriber is sent
  \<open>error\<close>, and no later stage has any effect: no directory is created (so no
  keyframes directory), no scene detection, no seek, no image write, no call of the
  generative model. The same holds for a URL job whose download succeeded.
\<close>

theorem transcription_failure_stops_before_keyframes:
  assumes "ffmpeg_run w v (audio_path_of j) = Inr u"
    and "whisper_transcribe w (audio_path_of j) = Inl e"
  shows "snd (run_analysis_on_local_file w j v) = Inl e
       \<and> status_writes j (fst (run_analysis_on_local_file w j v))
           = [''extracting_audio'', ''transcribing'', local_error_status e]
       \<and> is_error_status (local_error_status e)
       \<and> \<not> list_ex after_transcription (fst (run_analysis_on_local_file w j v))
       \<and> published (fst (run_local_file_analysis_and_notify w (conns(j \<mapsto> q)) j v))
           = [(j, ''error'')]
       \<and> (url_accepted url \<and> ydl_extract_info w url (outtmpl_of j) = Inr v \<and> v \<noteq> [] \<longrightarrow>
            status_writes j (fst (run_analysis_pipeline w j url))
              = [''downloading'', ''extracting_audio'', ''transcribing'', local_error_status e,
                 url_error_status e]
            \<and> is_error_status (url_error_status e)
            \<and> \<not> list_ex after_transcription (fst (run_analysis_pipeline w j url)))"
proof -
  note l = local_run_transcription_fails[OF assms]
  have 1: "snd (run_analysis_on_local_file w j v) = Inl e"
    by (simp add: l)
  have 2: "status_writes j (fst (run_analysis_on_local_file w j v))
             = [''extracting_audio'', ''transcribing'', local_error_status e]"
    by (simp add: l status_writes_def written_to_cleanup_audio)
  have 3: "\<not> list_ex after_transcription (fst (run_analysis_on_local_file w j v))"
    by (simp add: l not_after_transcription_cleanup)
  have 4: "published (fst (run_local_file_analysis_and_notify w (conns(j \<mapsto> q)) j v))
             = [(j, ''error'')]"
    by (simp add: notify_local 1 send_event_def published_local)
  have 5: "status_writes j (fst (run_analysis_pipeline w j url))
              = [''downloading'', ''extracting_audio'', ''transcribing'', local_error_status e,
                 url_error_status e]
            \<and> \<not> list_ex after_transcription (fst (run_analysis_pipeline w j url))"
    if "url_accepted url" "ydl_extract_info w url (outtmpl_of j) = Inr v" "v \<noteq> []"
    using 2 3
    by (simp add: pipeline_downloaded[OF that] 1 status_writes_def written_to_download_events
          not_after_transcription_download)
  show ?thesis
    using 5 by (simp add: 1 2 3 4 error_status_simps)
qed

text \<open>C9 on a run whose transcriber raises: the whole trace of the upload path.\<close>

theorem transcription_failure_stops_before_keyframes_witness:
  "fst (run_analysis_on_local_file
          (calm_world\<lparr>whisper_transcribe := (\<lambda>a. Inl (Exn ''RuntimeError'' ''no speech''))\<rparr>)
          ''job1'' ''temp_storage/job1/video.mp4'')
     = [WriteFile ''temp_storage/job1/status.txt'' ''extracting_audio'',
        FfmpegRun ''temp_storage/job1/video.mp4'' ''temp_storage/job1/audio.mp3'',
        WriteFile ''temp_storage/job1/status.txt'' ''transcribing'',
        WhisperTranscribe ''temp_storage/job1/audio.mp3'',
        RemoveFile ''temp_storage/job1/audio.mp3'',
        WriteFile ''temp_storage/job1/status.txt'' ''error: Error during analysis: no speech'']
   \<and> \<not> list_ex after_transcription
         (fst (run_analysis_on_local_file
                 (calm_world\<lparr>whisper_transcribe := (\<lambda>a. Inl (Exn ''RuntimeError'' ''no speech''))\<rparr>)
                 ''job1'' ''temp_storage/job1/video.mp4''))
   \<and> \<not> list_ex after_transcription
         (fst (run_analysis_pipeline
                 (calm_world\<lparr>whisper_transcribe := (\<lambda>a. Inl (Exn ''RuntimeError'' ''no speech''))\<rparr>)
                 ''job1'' ''https://www.tiktok.com/@u/video/1''))"
proof -
  let ?w = "calm_world\<lparr>whisper_transcribe := (\<lambda>a. Inl (Exn ''RuntimeError'' ''no speech''))\<rparr>"
  have a: "ffmpeg_run ?w ''temp_storage/job1/video.mp4'' (audio_path_of ''job1'') = Inr ()"
    by (simp add: calm_world_def)
  have b: "whisper_transcribe ?w (audio_path_of ''job1'') = Inl (Exn ''RuntimeError'' ''no speech'')"
    by simp
  have c: "url_accepted ''https://www.tiktok.com/@u/video/1''"
    by (simp add: url_accepted_def)
  have d: "ydl_extract_info ?w ''https://www.tiktok.com/@u/video/1'' (outtmpl_of ''job1'')
             = Inr ''temp_storage/job1/video.mp4''"
    by (simp add: calm_world_def)
  have t: "fst (run_analysis_on_local_file ?w ''job1'' ''temp_storage/job1/video.mp4'')
     = [WriteFile ''temp_storage/job1/status.txt'' ''extracting_audio'',
        FfmpegRun ''temp_storage/job1/video.mp4'' ''temp_storage/job1/audio.mp3'',
        WriteFile ''temp_storage/job1/status.txt'' ''transcribing'',
        WhisperTranscribe ''temp_storage/job1/audio.mp3'',
        RemoveFile ''temp_storage/job1/audio.mp3'',
        WriteFile ''temp_storage/job1/status.txt'' ''error: Error during analysis: no speech'']"
    by code_simp
  from transcription_failure_stops_before_keyframes
         [OF a b, of Map.empty "[]" "''https://www.tiktok.com/@u/video/1''"] c d t
  show ?thesis by simp
qed




section \<open>Job creation\<close>

text \<open>
  C8 (as amended). Job creation succeeds whether or not the job's directory exists,
  as long as no component of its path is a regular file (and, for an upload,
  \<open>video.mp4\<close> in it is not a directory): it adds the directory and the missing
  ones above it, schedules the pipeline and returns the job id; an upload also stores
  the video. It raises when a component of the path is a regular file, and an upload
  also when \<open>video.mp4\<close> is a directory. Neither endpoint writes the status file.
\<close>

theorem job_creation_accepts_an_existing_directory:
  "(\<not> path_blocked s (path_join TEMP_STORAGE_PATH job_id) \<longrightarrow>
      analyze_video_url s job_id url
        = Inr (s\<lparr>dirs := dirs s \<union> set (parents (path_join TEMP_STORAGE_PATH job_id))
                              \<union> {path_join TEMP_STORAGE_PATH job_id}\<rparr>,
               Run_analysis_and_notify job_id url, job_id))
   \<and> (\<not> path_blocked s (path_join TEMP_STORAGE_PATH job_id)
        \<and> path_join (path_join TEMP_STORAGE_PATH job_id) ''video.mp4'' \<notin> dirs s \<longrightarrow>
      analyze_video_upload s job_id video
        = Inr (s\<lparr>dirs := dirs s \<union> set (parents (path_join TEMP_STORAGE_PATH job_id))
                              \<union> {path_join TEMP_STORAGE_PATH job_id},
                 files := (files s)
                   (path_join (path_join TEMP_STORAGE_PATH job_id) ''video.mp4'' \<mapsto> video)\<rparr>,
               Run_local_file_analysis_and_notify job_id
                 (path_join (path_join TEMP_STORAGE_PATH job_id) ''video.mp4''), job_id)
      \<and> ((files s)(path_join (path_join TEMP_STORAGE_PATH job_id) ''video.mp4'' \<mapsto> video))
            (status_file_of job_id)
          = files s (status_file_of job_id))
   \<and> (path_blocked s (path_join TEMP_STORAGE_PATH job_id) \<longrightarrow>
        (\<exists>e. analyze_video_url s job_id url = Inl e)
        \<and> (\<exists>e. analyze_video_upload s job_id video = Inl e))
   \<and> (path_join (path_join TEMP_STORAGE_PATH job_id) ''video.mp4'' \<in> dirs s \<longrightarrow>
        (\<exists>e. analyze_video_upload s job_id video = Inl e))"
proof -
  let ?jd = "path_join TEMP_STORAGE_PATH job_id"
  let ?vp = "path_join ?jd ''video.mp4''"
  have 1: "analyze_video_url s job_id url
        = Inr (s\<lparr>dirs := dirs s \<union> set (parents ?jd) \<union> {?jd}\<rparr>,
               Run_analysis_and_notify job_id url, job_id)"
    if "\<not> path_blocked s ?jd"
    by (simp add: analyze_video_url_def os_makedirs_free[OF that])
  have 2: "analyze_video_upload s job_id video
        = Inr (s\<lparr>dirs := dirs s \<union> set (parents ?jd) \<union> {?jd},
                 files := (files s)(?vp \<mapsto> video)\<rparr>,
               Run_local_file_analysis_and_notify job_id ?vp, job_id)"
    if "\<not> path_blocked s ?jd" "?vp \<notin> dirs s"
    using that(2) video_path_not_created[of ?jd]
    by (simp add: analyze_video_upload_def Let_def os_makedirs_free[OF that(1)] open_wb_write_def)
  have 3: "((files s)(?vp \<mapsto> video)) (status_file_of job_id) = files s (status_file_of job_id)"
    using video_path_ne_status[of job_id] by simp
  have 4: "(\<exists>e. analyze_video_url s job_id url = Inl e)
           \<and> (\<exists>e. analyze_video_upload s job_id video = Inl e)"
    if "path_blocked s ?jd"
    using os_makedirs_blocked[OF that]
    by (auto simp: analyze_video_url_def analyze_video_upload_def Let_def)
  have 5: "\<exists>e. analyze_video_upload s job_id video = Inl e" if "?vp \<in> dirs s"
  proof (cases "path_blocked s ?jd")
    case True
    from 4[OF True] show ?thesis by blast
  next
    case False
    with that show ?thesis
      by (simp add: analyze_video_upload_def Let_def os_makedirs_free open_wb_write_def)
  qed
  from 1 2 3 4 5 show ?thesis by blast
qed

text \<open>
  The amended C8 on a file system where the job's directory exists, on one where
  \<open>temp_storage\<close> is a regular file, and on one where \<open>video.mp4\<close> is a
  directory.
\<close>

theorem job_creation_accepts_an_existing_directory_witness:
  "analyze_video_url \<lparr>dirs = {''temp_storage'', ''temp_storage/job1''}, files = Map.empty\<rparr>
      ''job1'' ''https://www.tiktok.com/@u/video/1''
     = Inr (\<lparr>dirs = {''temp_storage'', ''temp_storage/job1''}, files = Map.empty\<rparr>,
            Run_analysis_and_notify ''job1'' ''https://www.tiktok.com/@u/video/1'', ''job1'')
   \<and> (\<exists>e. analyze_video_url \<lparr>dirs = {}, files = Map.empty(''temp_storage'' \<mapsto> ''x'')\<rparr>
              ''job1'' ''https://www.tiktok.com/@u/video/1'' = Inl e)
   \<and> (\<exists>e. analyze_video_upload
              \<lparr>dirs = {''temp_storage'', ''temp_storage/job1'', ''temp_storage/job1/video.mp4''},
               files = Map.empty\<rparr> ''job1'' ''bytes'' = Inl e)"
proof -
  let ?s1 = "\<lparr>dirs = {''temp_storage'', ''temp_storage/job1''}, files = Map.empty\<rparr>"
  let ?s2 = "\<lparr>dirs = {}, files = Map.empty(''temp_storage'' \<mapsto> ''x'')\<rparr>"
  let ?s3 = "\<lparr>dirs = {''temp_storage'', ''temp_storage/job1'', ''temp_storage/job1/video.mp4''},
               files = Map.empty\<rparr>"
  have p: "path_join TEMP_STORAGE_PATH ''job1'' = ''temp_storage/job1''"
    by code_simp
  have q: "parents ''temp_storage/job1'' = [''temp_storage'']"
    by code_simp
  have v: "path_join ''temp_storage/job1'' ''video.mp4'' = ''temp_storage/job1/video.mp4''"
    by code_simp
  have h1: "\<not> path_blocked ?s1 (path_join TEMP_STORAGE_PATH ''job1'')"
    by (simp add: p q path_blocked_def)
  have h2: "path_blocked ?s2 (path_join TEMP_STORAGE_PATH ''job1'')"
    by (simp add: p q path_blocked_def)
  have h3: "path_join (path_join TEMP_STORAGE_PATH ''job1'') ''video.mp4'' \<in> dirs ?s3"
    by (simp add: p v)
  from job_creation_accepts_an_existing_directory
         [of ?s1 "''job1''" "''https://www.tiktok.com/@u/video/1''" "''bytes''"] h1
  have a: "analyze_video_url ?s1 ''job1'' ''https://www.tiktok.com/@u/video/1''
     = Inr (?s1, Run_analysis_and_notify ''job1'' ''https://www.tiktok.com/@u/video/1'', ''job1'')"
    by (simp add: p q insert_commute)
  from job_creation_accepts_an_existing_directory
         [of ?s2 "''job1''" "''https://www.tiktok.com/@u/video/1''" "''bytes''"] h2
  have b: "\<exists>e. analyze_video_url ?s2 ''job1'' ''https://www.tiktok.com/@u/video/1'' = Inl e"
    by blast
  from job_creation_accepts_an_existing_directory
         [of ?s3 "''job1''" "''https://www.tiktok.com/@u/video/1''" "''bytes''"] h3
  have c: "\<exists>e. analyze_video_upload ?s3 ''job1'' ''bytes'' = Inl e"
    by blast
  from a b c show ?thesis by blast
qed

text \<open>
  C8 as stated fails: creation succeeds when the job's directory already exists, and
  after a creation with no job directory yet there is no status file.
\<close>

theorem existing_job_directory_is_accepted:
  "analyze_video_url \<lparr>dirs = {''temp_storage'', ''temp_storage/job1''}, files = Map.empty\<rparr>
      ''job1'' ''https://www.tiktok.com/@u/video/1''
     = Inr (\<lparr>dirs = {''temp_storage'', ''temp_storage/job1''}, files = Map.empty\<rparr>,
            Run_analysis_and_notify ''job1'' ''https://www.tiktok.com/@u/video/1'', ''job1'')
   \<and> analyze_video_url \<lparr>dirs = {''temp_storage''}, files = Map.empty\<rparr>
      ''job1'' ''https://www.tiktok.com/@u/video/1''
     = Inr (\<lparr>dirs = {''temp_storage'', ''temp_storage/job1''}, files = Map.empty\<rparr>,
            Run_analysis_and_notify ''job1'' ''https://www.tiktok.com/@u/video/1'', ''job1'')
   \<and> files \<lparr>dirs = {''temp_storage'', ''temp_storage/job1''}, files = Map.empty\<rparr>
        (status_file_of ''job1'') = None"
proof -
  have p: "path_join TEMP_STORAGE_PATH ''job1'' = ''temp_storage/job1''"
    by code_simp
  have q: "parents ''temp_storage/job1'' = [''temp_storage'']"
    by code_simp
  show ?thesis
    by (simp add: analyze_video_url_def os_makedirs_exist_ok_def p q insert_commute)
qed

end
